theory Spec2Isabelle
  imports Main "HOL-Library.Char_ord" "HOL-Library.List_Lexorder"
begin

section \<open>The persistent store\<close>

text \<open>
  The application keeps two SQLite tables,
  \<^verbatim>\<open>students(id INTEGER PRIMARY KEY AUTOINCREMENT, name TEXT UNIQUE)\<close> and
  \<^verbatim>\<open>catchups(id INTEGER PRIMARY KEY AUTOINCREMENT, student_id INTEGER, date TEXT,
  lesson_missed TEXT)\<close>.  A table is the list of its rows in rowid order, which is the
  order of insertion (ids only grow and nothing is ever deleted), and a row is the
  tuple of its columns.  Every handler opens its own connection, so a handler is a
  function from the store to its result and the store it leaves behind.

  Modelling conventions: a Python \<^verbatim>\<open>str\<close> is a \<^typ>\<open>string\<close> whose
  characters are code points below 256; on these the regular expression class
  \<^verbatim>\<open>\d\<close> is exactly the ASCII digits and SQLite's binary text collation is the
  lexicographic order of \<^typ>\<open>string\<close>.  Identifiers are \<^typ>\<open>int\<close>; the 64-bit
  limit of SQLite's INTEGER and storage I/O failures are outside the model.  Columns
  hold what the two POST handlers can write, so no column is NULL.
\<close>

type_synonym student_row = "int \<times> string"
type_synonym catchup_row = "int \<times> int \<times> string \<times> string"

record store =
  students :: "student_row list"
  catchups :: "catchup_row list"

text \<open>AUTOINCREMENT: one more than the largest rowid ever used (no row is deleted).\<close>

definition next_rowid :: "int list \<Rightarrow> int" where
  "next_rowid ids = foldr max ids 0 + 1"

text \<open>The request bodies: \<^verbatim>\<open>class Student(BaseModel)\<close> and \<^verbatim>\<open>class CatchUp(BaseModel)\<close>.\<close>

record Student =
  name :: string

record CatchUp =
  student_id :: int
  date :: string
  lesson_missed :: string

section \<open>POST /students and POST /catchups\<close>

text \<open>
  \<^verbatim>\<open>INSERT OR IGNORE INTO students (name) VALUES (?)\<close>: the UNIQUE constraint on
  \<^verbatim>\<open>name\<close> makes the insert a no-op when a row with that name exists.
\<close>

definition insert_or_ignore_student :: "string \<Rightarrow> store \<Rightarrow> store" where
  "insert_or_ignore_student n db =
     (if n \<in> set (map snd (students db)) then db
      else db\<lparr>students := students db @ [(next_rowid (map fst (students db)), n)]\<rparr>)"

definition add_student :: "Student \<Rightarrow> store \<Rightarrow> (string \<times> string) list \<times> store" where
  "add_student student db =
     ([(''message'', ''Student added'')], insert_or_ignore_student (name student) db)"

text \<open>
  \<^verbatim>\<open>INSERT INTO catchups (student_id, date, lesson_missed) VALUES (?, ?, ?)\<close>:
  the foreign key is declared but SQLite does not enforce it on a default connection.
\<close>

definition insert_catchup :: "int \<Rightarrow> string \<Rightarrow> string \<Rightarrow> store \<Rightarrow> store" where
  "insert_catchup sid d l db =
     db\<lparr>catchups := catchups db @ [(next_rowid (map fst (catchups db)), sid, d, l)]\<rparr>"

definition add_catchup :: "CatchUp \<Rightarrow> store \<Rightarrow> (string \<times> string) list \<times> store" where
  "add_catchup catchup db =
     ([(''message'', ''Catch-up recorded'')],
      insert_catchup (student_id catchup) (date catchup) (lesson_missed catchup) db)"

section \<open>GET /students and GET /catchups/by\_name\<close>

text \<open>\<^verbatim>\<open>SELECT id, name FROM students\<close>, each row turned into a dictionary.\<close>

record student_json =
  sj_id :: int
  sj_name :: string

definition list_students :: "store \<Rightarrow> student_json list \<times> store" where
  "list_students db =
     (map (\<lambda>row. \<lparr>sj_id = fst row, sj_name = snd row\<rparr>) (students db), db)"

text \<open>\<^verbatim>\<open>SELECT id FROM students WHERE name=?\<close> followed by \<^verbatim>\<open>fetchone()\<close>.\<close>

definition select_student_id :: "string \<Rightarrow> store \<Rightarrow> int option" where
  "select_student_id n db = map_option fst (find (\<lambda>row. snd row = n) (students db))"

text \<open>\<^verbatim>\<open>SELECT date, lesson_missed FROM catchups WHERE student_id=?\<close>, a table scan.\<close>

definition select_catchups_of :: "int \<Rightarrow> store \<Rightarrow> (string \<times> string) list" where
  "select_catchups_of sid db =
     map (\<lambda>(cid, s, d, l). (d, l)) (filter (\<lambda>(cid, s, d, l). s = sid) (catchups db))"

record charge_json =
  catchup_no :: nat
  cj_date :: string
  cj_lesson_missed :: string
  charge :: string

text \<open>The loop \<^verbatim>\<open>for i, row in enumerate(data, start=1)\<close> of the by-name report.\<close>

fun by_name_loop :: "nat \<Rightarrow> (string \<times> string) list \<Rightarrow> charge_json list" where
  "by_name_loop i [] = []"
| "by_name_loop i (row # data) =
     \<lparr>catchup_no = i, cj_date = fst row, cj_lesson_missed = snd row,
      charge = (if i \<le> 2 then ''Free'' else ''Charge'')\<rparr> # by_name_loop (i + 1) data"

definition list_catchups_by_name :: "string \<Rightarrow> store \<Rightarrow> charge_json list \<times> store" where
  "list_catchups_by_name student_name db =
     (case select_student_id student_name db of
        None \<Rightarrow> ([], db)
      | Some sid \<Rightarrow> (by_name_loop 1 (select_catchups_of sid db), db))"

section \<open>Dates: \<^verbatim>\<open>datetime.strptime\<close> and \<^verbatim>\<open>strftime\<close>\<close>

text \<open>
  \<^verbatim>\<open>datetime.strptime(s, '%Y-%m-%d')\<close> compiles its format into the regular expression
  \<^verbatim>\<open>(?P<Y>\d\d\d\d)-(?P<m>1[0-2]|0[1-9]|[1-9])-(?P<d>3[0-1]|[1-2]\d|0[1-9]|[1-9]| [1-9])\<close>,
  matches it at the start of the string, raises ValueError when nothing matches or when
  the match does not reach the end of the string, converts the groups with
  \<^verbatim>\<open>int\<close> and raises ValueError when they are no date of the calendar (years 1 to
  9999).  A group is modelled by the list of its matches in the order the backtracking
  matcher tries them, each with the converted number and the rest of the string; the
  match that is found is the first one of the whole pattern.
\<close>

datatype error = ValueError

definition is_digit :: "char \<Rightarrow> bool" where
  "is_digit c = (c \<in> set ''0123456789'')"

definition digit_val :: "char \<Rightarrow> nat" where
  "digit_val c = of_char c - 48"

text \<open>\<^verbatim>\<open>int(s)\<close> on a group of the pattern: leading blanks are skipped.\<close>

definition py_int :: "string \<Rightarrow> nat" where
  "py_int s = foldl (\<lambda>n c. 10 * n + digit_val c) 0 (dropWhile (\<lambda>c. c = CHR '' '') s)"

fun re_lit :: "char \<Rightarrow> string \<Rightarrow> string list" where
  "re_lit c [] = []"
| "re_lit c (a # r) = (if a = c then [r] else [])"

fun re_one :: "(char \<Rightarrow> bool) \<Rightarrow> string \<Rightarrow> (nat \<times> string) list" where
  "re_one P [] = []"
| "re_one P (a # r) = (if P a then [(py_int [a], r)] else [])"

fun re_two :: "(char \<Rightarrow> bool) \<Rightarrow> (char \<Rightarrow> bool) \<Rightarrow> string \<Rightarrow> (nat \<times> string) list" where
  "re_two P Q (a # b # r) = (if P a \<and> Q b then [(py_int [a, b], r)] else [])"
| "re_two P Q _ = []"

fun re_Y :: "string \<Rightarrow> (nat \<times> string) list" where
  "re_Y (a # b # c # d # r) =
     (if is_digit a \<and> is_digit b \<and> is_digit c \<and> is_digit d
      then [(py_int [a, b, c, d], r)] else [])"
| "re_Y _ = []"

definition re_m :: "string \<Rightarrow> (nat \<times> string) list" where
  "re_m s =
     re_two (\<lambda>a. a = CHR ''1'') (\<lambda>b. b \<in> set ''012'') s @
     re_two (\<lambda>a. a = CHR ''0'') (\<lambda>b. b \<in> set ''123456789'') s @
     re_one (\<lambda>a. a \<in> set ''123456789'') s"

definition re_d :: "string \<Rightarrow> (nat \<times> string) list" where
  "re_d s =
     re_two (\<lambda>a. a = CHR ''3'') (\<lambda>b. b \<in> set ''01'') s @
     re_two (\<lambda>a. a \<in> set ''12'') is_digit s @
     re_two (\<lambda>a. a = CHR ''0'') (\<lambda>b. b \<in> set ''123456789'') s @
     re_one (\<lambda>a. a \<in> set ''123456789'') s @
     re_two (\<lambda>a. a = CHR '' '') (\<lambda>b. b \<in> set ''123456789'') s"

definition re_match_Ymd :: "string \<Rightarrow> ((nat \<times> nat \<times> nat) \<times> string) list" where
  "re_match_Ymd s =
     [((y, m, d), r5).
        (y, r1) \<leftarrow> re_Y s, r2 \<leftarrow> re_lit CHR ''-'' r1,
        (m, r3) \<leftarrow> re_m r2, r4 \<leftarrow> re_lit CHR ''-'' r3,
        (d, r5) \<leftarrow> re_d r4]"

definition re_match_Ym :: "string \<Rightarrow> ((nat \<times> nat \<times> nat) \<times> string) list" where
  "re_match_Ym s =
     [((y, m, 1), r3).
        (y, r1) \<leftarrow> re_Y s, r2 \<leftarrow> re_lit CHR ''-'' r1, (m, r3) \<leftarrow> re_m r2]"

definition is_leap :: "nat \<Rightarrow> bool" where
  "is_leap y = (y mod 4 = 0 \<and> (y mod 100 \<noteq> 0 \<or> y mod 400 = 0))"

definition days_in_month :: "nat \<Rightarrow> nat \<Rightarrow> nat" where
  "days_in_month y m =
     (if m = 2 \<and> is_leap y then 29
      else [31, 28, 31, 30, 31, 30, 31, 31, 30, 31, 30, 31] ! (m - 1))"

text \<open>
  The checks after the match: unconverted data, then the construction of the date
  (\<^verbatim>\<open>datetime_date(year, month, day)\<close>), which refuses year 0 and a day beyond the
  month's length.  The month is in 1..12 and the day at least 1 by the pattern.
  \<open>None\<close> is the ValueError.
\<close>

definition strptime_of :: "((nat \<times> nat \<times> nat) \<times> string) list \<Rightarrow> (nat \<times> nat \<times> nat) option" where
  "strptime_of found =
     (case found of
        [] \<Rightarrow> None
      | ((y, m, d), rest) # _ \<Rightarrow>
          if rest \<noteq> [] then None
          else if y < 1 \<or> days_in_month y m < d then None
          else Some (y, m, d))"

definition strptime_Ymd :: "string \<Rightarrow> (nat \<times> nat \<times> nat) option" where
  "strptime_Ymd s = strptime_of (re_match_Ymd s)"

definition strptime_Ym :: "string \<Rightarrow> (nat \<times> nat \<times> nat) option" where
  "strptime_Ym s = strptime_of (re_match_Ym s)"

text \<open>
  \<^verbatim>\<open>str(n)\<close> of a non-negative integer, and the zero-padded fields of
  \<^verbatim>\<open>strftime\<close>: \<^verbatim>\<open>%Y\<close> is the year as four digits (as the library documents
  it), \<^verbatim>\<open>%m\<close> the month as two, \<^verbatim>\<open>%B\<close> the month's English name.
\<close>

definition digit_char :: "nat \<Rightarrow> char" where
  "digit_char n = ''0123456789'' ! n"

function str_nat :: "nat \<Rightarrow> string" where
  "str_nat n = (if n < 10 then [digit_char n] else str_nat (n div 10) @ [digit_char (n mod 10)])"
  by pat_completeness auto
termination
  by (relation "measure (\<lambda>n. n)") auto

declare str_nat.simps [simp del]

definition zfill :: "nat \<Rightarrow> string \<Rightarrow> string" where
  "zfill w s = replicate (w - length s) CHR ''0'' @ s"

definition strftime_Ym :: "nat \<times> nat \<times> nat \<Rightarrow> string" where
  "strftime_Ym dt = (case dt of (y, m, d) \<Rightarrow> zfill 4 (str_nat y) @ ''-'' @ zfill 2 (str_nat m))"

definition month_names :: "string list" where
  "month_names = [''January'', ''February'', ''March'', ''April'', ''May'', ''June'', ''July'',
     ''August'', ''September'', ''October'', ''November'', ''December'']"

definition strftime_BY :: "nat \<times> nat \<times> nat \<Rightarrow> string" where
  "strftime_BY dt = (case dt of (y, m, d) \<Rightarrow> month_names ! (m - 1) @ '' '' @ zfill 4 (str_nat y))"

section \<open>GET /catchups/all\<close>

text \<open>
  \<^verbatim>\<open>FROM students s JOIN catchups c ON s.id = c.student_id ORDER BY c.date\<close>: the
  pairs of a catch-up and a student with that id, sorted on the date column as text.
  The rows are produced by the scan of \<^verbatim>\<open>catchups\<close> with a lookup of the student by
  its primary key, and the sort keeps rows of equal date in that order.
\<close>

definition join_order_by_date :: "store \<Rightarrow> (student_row \<times> catchup_row) list" where
  "join_order_by_date db =
     sort_key (\<lambda>(s, (cid, sid, d, l)). d)
       [(s, c). c \<leftarrow> catchups db, s \<leftarrow> students db, fst s = fst (snd c)]"

text \<open>\<^verbatim>\<open>SELECT s.name, c.date, c.student_id, c.lesson_missed\<close>.\<close>

definition select_all_catchups :: "store \<Rightarrow> (string \<times> string \<times> int \<times> string) list" where
  "select_all_catchups db =
     map (\<lambda>((i, n), (cid, sid, d, l)). (n, d, sid, l)) (join_order_by_date db)"

text \<open>
  A \<^verbatim>\<open>defaultdict(list)\<close> keeps its keys in the order of their first insertion:
  an association list.  \<open>dd_append k v m\<close> is \<^verbatim>\<open>m[k].append(v)\<close>.
\<close>

fun dd_append :: "'k \<Rightarrow> 'v \<Rightarrow> ('k \<times> 'v list) list \<Rightarrow> ('k \<times> 'v list) list" where
  "dd_append k v [] = [(k, [v])]"
| "dd_append k v ((k', vs) # m) =
     (if k' = k then (k', vs @ [v]) # m else (k', vs) # dd_append k v m)"

text \<open>
  The grouping loop of both month reports; \<open>date_of\<close> picks the date out of the row
  tuple.  A date that \<^verbatim>\<open>strptime\<close> refuses ends the request with the ValueError.
\<close>

fun monthly_loop ::
  "('r \<Rightarrow> string) \<Rightarrow> 'r list \<Rightarrow> (string \<times> 'r list) list \<Rightarrow> error + (string \<times> 'r list) list" where
  "monthly_loop date_of [] monthly = Inr monthly"
| "monthly_loop date_of (row # rows) monthly =
     (case strptime_Ymd (date_of row) of
        None \<Rightarrow> Inl ValueError
      | Some date_obj \<Rightarrow>
          monthly_loop date_of rows (dd_append (strftime_Ym date_obj) row monthly))"

definition list_all_catchups ::
  "store \<Rightarrow> (error + (string \<times> (string \<times> string \<times> int \<times> string) list) list) \<times> store" where
  "list_all_catchups db =
     (monthly_loop (\<lambda>(n, d, sid, l). d) (select_all_catchups db) [], db)"

section \<open>The CSV downloads\<close>

text \<open>
  \<^verbatim>\<open>csv.writer(output).writerow(fields)\<close> in the default dialect: fields joined by
  commas, a field holding a comma, a double quote, CR or LF put in double quotes with
  its quotes doubled, a row that is one empty field written as two quotes, CR LF after
  every row.  The buffer is the concatenation of the rows written.
\<close>

definition dquote :: char where
  "dquote = CHR 0x22"

definition quote_field :: "string \<Rightarrow> string" where
  "quote_field f =
     (if list_ex (\<lambda>c. c \<in> set [CHR '','', dquote, CHR 0x0D, CHR 0x0A]) f
      then dquote # concat (map (\<lambda>c. if c = dquote then [dquote, dquote] else [c]) f) @ [dquote]
      else f)"

fun join_fields :: "string list \<Rightarrow> string" where
  "join_fields [] = []"
| "join_fields [f] = f"
| "join_fields (f # g # fs) = f @ CHR '','' # join_fields (g # fs)"

definition writerow :: "string list \<Rightarrow> string" where
  "writerow row =
     (if row = [[]] then [dquote, dquote] else join_fields (map quote_field row))
     @ [CHR 0x0D, CHR 0x0A]"

record response =
  status_code :: nat
  media_type :: string
  headers :: "(string \<times> string) list"
  body :: string

text \<open>The data rows of the by-name download: the same loop, writing rows.\<close>

fun csv_by_name_loop :: "nat \<Rightarrow> (string \<times> string) list \<Rightarrow> string list list" where
  "csv_by_name_loop i [] = []"
| "csv_by_name_loop i (row # data) =
     [str_nat i, fst row, snd row, (if i \<le> 2 then ''Free'' else ''Charge'')]
     # csv_by_name_loop (i + 1) data"

definition replace_spaces :: "string \<Rightarrow> string" where
  "replace_spaces s = map (\<lambda>c. if c = CHR '' '' then CHR ''_'' else c) s"

definition download_catchups_by_name :: "string \<Rightarrow> store \<Rightarrow> response \<times> store" where
  "download_catchups_by_name student_name db =
     (case select_student_id student_name db of
        None \<Rightarrow>
          (\<lparr>status_code = 200, media_type = ''text/plain'', headers = [],
            body = ''Student not found.''\<rparr>, db)
      | Some sid \<Rightarrow>
          (\<lparr>status_code = 200, media_type = ''text/csv'',
            headers = [(''Content-Disposition'',
              ''attachment; filename=catchups_report_'' @ replace_spaces student_name @ ''.csv'')],
            body = concat (map writerow
              ([[''Catch-up Tracker Report for '' @ student_name],
                [''Catch-up Number'', ''Date'', ''Lesson Missed'', ''Status'']]
               @ csv_by_name_loop 1 (select_catchups_of sid db)))\<rparr>, db))"

text \<open>\<^verbatim>\<open>SELECT s.name, c.date, c.lesson_missed\<close> over the same join.\<close>

definition select_download_all :: "store \<Rightarrow> (string \<times> string \<times> string) list" where
  "select_download_all db =
     map (\<lambda>((i, n), (cid, sid, d, l)). (n, d, l)) (join_order_by_date db)"

text \<open>
  The rows of one month: \<^verbatim>\<open>student_catchup_count\<close> is a \<^verbatim>\<open>defaultdict(int)\<close>,
  a function that is 0 on every name not yet counted.
\<close>

fun tier_loop :: "(string \<times> string \<times> string) list \<Rightarrow> (string \<Rightarrow> nat) \<Rightarrow> string list list" where
  "tier_loop [] student_catchup_count = []"
| "tier_loop ((student_name, catchup_date, l) # entries) student_catchup_count =
     (let cnt = student_catchup_count(student_name := student_catchup_count student_name + 1)
      in [student_name, catchup_date, l, (if cnt student_name \<le> 2 then ''Free'' else ''Charge'')]
         # tier_loop entries cnt)"

text \<open>The loop over \<^verbatim>\<open>monthly_data.items()\<close>, a fresh counter for every month.\<close>

fun sections_loop ::
  "(string \<times> (string \<times> string \<times> string) list) list \<Rightarrow> error + string list list" where
  "sections_loop [] = Inr []"
| "sections_loop ((month_key, entries) # months) =
     (case strptime_Ym month_key of
        None \<Rightarrow> Inl ValueError
      | Some dt \<Rightarrow>
          (case sections_loop months of
             Inl e \<Rightarrow> Inl e
           | Inr rows \<Rightarrow>
               Inr ([[''Month: '' @ strftime_BY dt],
                     [''Student Name'', ''Catch-up Date'', ''Lesson Missed'', ''Status'']]
                    @ tier_loop entries (\<lambda>n. 0) @ [[]] @ rows)))"

definition download_all_rows :: "store \<Rightarrow> error + string list list" where
  "download_all_rows db =
     (case monthly_loop (\<lambda>(n, d, l). d) (select_download_all db) [] of
        Inl e \<Rightarrow> Inl e
      | Inr monthly_data \<Rightarrow>
          (case sections_loop monthly_data of
             Inl e \<Rightarrow> Inl e
           | Inr rows \<Rightarrow> Inr ([[''Catch-up Tracker - Full Report''], []] @ rows)))"

definition download_all_catchups :: "store \<Rightarrow> (error + response) \<times> store" where
  "download_all_catchups db =
     (case download_all_rows db of
        Inl e \<Rightarrow> (Inl e, db)
      | Inr rows \<Rightarrow>
          (Inr \<lparr>status_code = 200, media_type = ''text/csv'',
                headers = [(''Content-Disposition'',
                  ''attachment; filename=all_catchups_monthly_report.csv'')],
                body = concat (map writerow rows)\<rparr>, db))"

section \<open>Notions of the specification\<close>

text \<open>
  The month key the grouping loop computes for a date string that \<^verbatim>\<open>strptime\<close>
  accepts: \<^verbatim>\<open>strptime(d, '%Y-%m-%d').strftime('%Y-%m')\<close>.
\<close>

definition month_key :: "string \<Rightarrow> string" where
  "month_key d = (case strptime_Ymd d of None \<Rightarrow> [] | Some date_obj \<Rightarrow> strftime_Ym date_obj)"

text \<open>The elements of a list in the order of their first occurrence.\<close>

definition first_seen :: "'a list \<Rightarrow> 'a list" where
  "first_seen xs = rev (remdups (rev xs))"

text \<open>
  The specification's partition: one group for every key, the keys in the order first
  encountered, a group holding the rows of its key in the order of the scan.
\<close>

definition groups_by :: "('r \<Rightarrow> 'k) \<Rightarrow> 'r list \<Rightarrow> ('k \<times> 'r list) list" where
  "groups_by key rows =
     map (\<lambda>k. (k, filter (\<lambda>r. key r = k) rows)) (first_seen (map key rows))"

text \<open>
  The specification's ``ISO calendar date string \<^verbatim>\<open>YYYY-MM-DD\<close>'': ten characters,
  zero-padded digits and two hyphens, naming a day of the calendar in the years 0001 to
  9999.
\<close>

definition iso_calendar_date :: "string \<Rightarrow> bool" where
  "iso_calendar_date s =
     (length s = 10 \<and> list_all is_digit (take 4 s) \<and> s ! 4 = CHR ''-'' \<and>
      list_all is_digit (take 2 (drop 5 s)) \<and> s ! 7 = CHR ''-'' \<and>
      list_all is_digit (drop 8 s) \<and>
      1 \<le> py_int (take 4 s) \<and>
      1 \<le> py_int (take 2 (drop 5 s)) \<and> py_int (take 2 (drop 5 s)) \<le> 12 \<and>
      1 \<le> py_int (drop 8 s) \<and>
      py_int (drop 8 s) \<le> days_in_month (py_int (take 4 s)) (py_int (take 2 (drop 5 s))))"




section \<open>Request sequences and example stores\<close>

text \<open>Recording a list of catch-ups, one POST /catchups after the other.\<close>

definition record_catchups :: "CatchUp list \<Rightarrow> store \<Rightarrow> store" where
  "record_catchups cs db = foldl (\<lambda>d c. snd (add_catchup c d)) db cs"

text \<open>The end-to-end example: student Ana and her three catch-ups of March 2024.\<close>

definition db_ana :: store where
  "db_ana = \<lparr>students = [(1, ''Ana'')], catchups = []\<rparr>"

definition ana_catchups :: "CatchUp list" where
  "ana_catchups =
     [\<lparr>student_id = 1, date = ''2024-03-01'', lesson_missed = ''L1''\<rparr>,
      \<lparr>student_id = 1, date = ''2024-03-15'', lesson_missed = ''L2''\<rparr>,
      \<lparr>student_id = 1, date = ''2024-03-20'', lesson_missed = ''L3''\<rparr>]"


definition db_single_digit :: store where
  "db_single_digit = \<lparr>students = [(1, ''Ana'')], catchups = [(1, 1, ''2024-3-5'', ''L1'')]\<rparr>"

definition db_bad_date :: store where
  "db_bad_date = \<lparr>students = [(1, ''Ana'')], catchups = [(1, 1, ''2024-02-30'', ''L1'')]\<rparr>"




section \<open>Properties of the by-name report\<close>

lemma length_by_name_loop: "length (by_name_loop i data) = length data"
  by (induction data arbitrary: i) simp_all

lemma nth_by_name_loop:
  "k < length data \<Longrightarrow>
   by_name_loop i data ! k =
     \<lparr>catchup_no = i + k, cj_date = fst (data ! k), cj_lesson_missed = snd (data ! k),
      charge = (if i + k \<le> 2 then ''Free'' else ''Charge'')\<rparr>"
proof (induction data arbitrary: i k)
  case Nil
  then show ?case by simp
next
  case (Cons row data)
  show ?case
  proof (cases k)
    case 0
    then show ?thesis by simp
  next
    case (Suc j)
    with Cons.prems have "j < length data" by simp
    from Cons.IH [OF this, of "i + 1"] Suc show ?thesis by simp
  qed
qed

lemma students_add_catchup: "students (snd (add_catchup c db)) = students db"
  by (simp add: add_catchup_def insert_catchup_def)

lemma select_catchups_of_add_catchup:
  "select_catchups_of sid (snd (add_catchup c db)) =
     select_catchups_of sid db @
       (if student_id c = sid then [(date c, lesson_missed c)] else [])"
  by (simp add: add_catchup_def insert_catchup_def select_catchups_of_def)

lemma students_record_catchups: "students (record_catchups cs db) = students db"
  unfolding record_catchups_def
  by (induction cs arbitrary: db) (simp_all add: students_add_catchup)

lemma select_catchups_of_record_catchups:
  "select_catchups_of sid (record_catchups cs db) =
     select_catchups_of sid db @
       map (\<lambda>c. (date c, lesson_missed c)) (filter (\<lambda>c. student_id c = sid) cs)"
  unfolding record_catchups_def
  by (induction cs arbitrary: db) (simp_all add: select_catchups_of_add_catchup)

lemma select_student_id_students:
  "students db' = students db \<Longrightarrow> select_student_id n db' = select_student_id n db"
  by (simp add: select_student_id_def)

text \<open>
  Claim C1.  For a registered student whose table already holds \<open>prior\<close> catch-ups,
  the \<open>k\<close>-th catch-up (from 0) that a sequence of POST /catchups requests records for
  that student is the catch-up number \<open>N = prior + k + 1\<close> of the student, and the
  by-name report shows it at position \<open>N\<close> with \<open>catchup_no = N\<close>, its date and
  lesson, and the charge Free when \<open>N \<le> 2\<close> and Charge otherwise.
\<close>

theorem by_name_report_nth_tier:
  assumes reg: "select_student_id student_name db = Some sid"
    and mine: "mine = filter (\<lambda>c. student_id c = sid) cs"
    and prior: "prior = length (select_catchups_of sid db)"
    and k: "k < length mine"
    and N: "N = prior + k + 1"
  shows "fst (list_catchups_by_name student_name (record_catchups cs db)) ! (N - 1) =
           \<lparr>catchup_no = N, cj_date = date (mine ! k),
            cj_lesson_missed = lesson_missed (mine ! k),
            charge = (if N \<le> 2 then ''Free'' else ''Charge'')\<rparr>
         \<and> length (fst (list_catchups_by_name student_name (record_catchups cs db))) =
             prior + length mine"
proof -
  let ?db = "record_catchups cs db"
  let ?data = "select_catchups_of sid ?db"
  have sel: "select_student_id student_name ?db = Some sid"
    using reg select_student_id_students [OF students_record_catchups] by simp
  have data: "?data = select_catchups_of sid db @ map (\<lambda>c. (date c, lesson_missed c)) mine"
    by (simp add: select_catchups_of_record_catchups mine)
  have rep: "fst (list_catchups_by_name student_name ?db) = by_name_loop 1 ?data"
    by (simp add: list_catchups_by_name_def sel)
  have len: "prior + k < length ?data"
    using k by (simp add: data prior)
  have row: "?data ! (prior + k) = (date (mine ! k), lesson_missed (mine ! k))"
    using k by (simp add: data prior nth_append)
  have "by_name_loop 1 ?data ! (prior + k) =
          \<lparr>catchup_no = 1 + (prior + k), cj_date = fst (?data ! (prior + k)),
           cj_lesson_missed = snd (?data ! (prior + k)),
           charge = (if 1 + (prior + k) \<le> 2 then ''Free'' else ''Charge'')\<rparr>"
    by (rule nth_by_name_loop [OF len])
  then have "by_name_loop 1 ?data ! (N - 1) =
          \<lparr>catchup_no = N, cj_date = date (mine ! k),
           cj_lesson_missed = lesson_missed (mine ! k),
           charge = (if N \<le> 2 then ''Free'' else ''Charge'')\<rparr>"
    by (simp add: N row)
  moreover have "length (by_name_loop 1 ?data) = prior + length mine"
    by (simp add: length_by_name_loop data prior)
  ultimately show ?thesis by (simp add: rep)
qed

theorem by_name_report_nth_tier_witness:
  "fst (list_catchups_by_name ''Ana'' (record_catchups ana_catchups db_ana)) ! (3 - 1) =
     \<lparr>catchup_no = 3, cj_date = ''2024-03-20'', cj_lesson_missed = ''L3'', charge = ''Charge''\<rparr>
   \<and> length (fst (list_catchups_by_name ''Ana'' (record_catchups ana_catchups db_ana))) = 3"
  using by_name_report_nth_tier [of "''Ana''" db_ana 1 ana_catchups ana_catchups 0 2 3]
  by (simp add: db_ana_def ana_catchups_def select_student_id_def select_catchups_of_def)

section \<open>Properties of student registration\<close>

lemma count_name_distinct:
  "distinct (map snd xs) \<Longrightarrow> n \<in> set (map snd xs) \<Longrightarrow>
   length (filter (\<lambda>row. snd row = n) xs) = 1"
proof (induction xs)
  case Nil
  then show ?case by simp
next
  case (Cons x xs)
  show ?case
  proof (cases "snd x = n")
    case True
    with Cons.prems have "n \<notin> set (map snd xs)" by auto
    then have "filter (\<lambda>row. snd row = n) xs = []"
      by (auto simp: filter_empty_conv)
    with True show ?thesis by simp
  next
    case False
    with Cons show ?thesis by auto
  qed
qed

lemma insert_or_ignore_student_registered:
  "name_of \<in> set (map snd (students (insert_or_ignore_student name_of db)))"
  by (simp add: insert_or_ignore_student_def)

lemma insert_or_ignore_student_distinct:
  "distinct (map snd (students db)) \<Longrightarrow>
   distinct (map snd (students (insert_or_ignore_student n db)))"
  by (simp add: insert_or_ignore_student_def)

lemma insert_or_ignore_student_twice:
  "insert_or_ignore_student n (insert_or_ignore_student n db) = insert_or_ignore_student n db"
  using insert_or_ignore_student_registered [of n db]
  by (simp add: insert_or_ignore_student_def [of n "insert_or_ignore_student n db"])

lemma add_student_repeat:
  "((\<lambda>d. snd (add_student student d)) ^^ Suc k) db = snd (add_student student db)"
  by (induction k) (simp_all add: add_student_def insert_or_ignore_student_twice)

text \<open>
  Claim C3.  On a store whose student names are unique (the UNIQUE constraint of the
  table), POST /students answers with the same confirmation message on the first and on
  a repeated request, a repeated request leaves the store as the first one left it (so
  does any number of repetitions), and afterwards exactly one student row carries the
  name, the names still being unique.
\<close>

theorem add_student_idempotent:
  assumes "distinct (map snd (students db))"
  shows "fst (add_student student db) = [(''message'', ''Student added'')]
       \<and> fst (add_student student (snd (add_student student db))) = fst (add_student student db)
       \<and> snd (add_student student (snd (add_student student db))) = snd (add_student student db)
       \<and> ((\<lambda>d. snd (add_student student d)) ^^ Suc k) db = snd (add_student student db)
       \<and> length (filter (\<lambda>row. snd row = name student)
            (students (snd (add_student student db)))) = 1
       \<and> distinct (map snd (students (snd (add_student student db))))"
proof -
  let ?db1 = "insert_or_ignore_student (name student) db"
  have d1: "distinct (map snd (students ?db1))"
    using assms by (rule insert_or_ignore_student_distinct)
  have "length (filter (\<lambda>row. snd row = name student) (students ?db1)) = 1"
    using d1 insert_or_ignore_student_registered by (rule count_name_distinct)
  moreover have "((\<lambda>d. snd (add_student student d)) ^^ Suc k) db = snd (add_student student db)"
    by (rule add_student_repeat)
  ultimately show ?thesis
    using d1 by (simp add: add_student_def insert_or_ignore_student_twice del: funpow.simps)
qed

theorem add_student_idempotent_witness:
  "fst (add_student \<lparr>name = ''Ana''\<rparr> db_ana) = [(''message'', ''Student added'')]
   \<and> snd (add_student \<lparr>name = ''Ana''\<rparr> (snd (add_student \<lparr>name = ''Ana''\<rparr> db_ana))) = db_ana
   \<and> ((\<lambda>d. snd (add_student \<lparr>name = ''Bob''\<rparr> d)) ^^ Suc 2) db_ana =
       \<lparr>students = [(1, ''Ana''), (2, ''Bob'')], catchups = []\<rparr>
   \<and> length (filter (\<lambda>row. snd row = ''Bob'')
        (students (snd (add_student \<lparr>name = ''Bob''\<rparr> db_ana)))) = 1"
  using add_student_idempotent [of db_ana "\<lparr>name = ''Ana''\<rparr>" 2]
    add_student_idempotent [of db_ana "\<lparr>name = ''Bob''\<rparr>" 2]
  by (simp add: db_ana_def add_student_def insert_or_ignore_student_def next_rowid_def
      del: funpow.simps)

section \<open>Unknown names and empty reports\<close>

text \<open>
  Claim C5.  When the name is not registered, or is registered to a student without any
  catch-up row, the by-name report is the empty list (the handler has no failing branch).
\<close>

theorem by_name_empty_when_no_rows:
  assumes "select_student_id student_name db = None
     \<or> (\<exists>sid. select_student_id student_name db = Some sid \<and> select_catchups_of sid db = [])"
  shows "fst (list_catchups_by_name student_name db) = []"
  using assms by (auto simp: list_catchups_by_name_def)

theorem by_name_empty_when_no_rows_witness:
  "fst (list_catchups_by_name ''Zed'' db_ana) = []
   \<and> fst (list_catchups_by_name ''Ana'' db_ana) = []"
  using by_name_empty_when_no_rows [of "''Zed''" db_ana]
    by_name_empty_when_no_rows [of "''Ana''" db_ana]
  by (simp add: db_ana_def select_student_id_def select_catchups_of_def)

text \<open>
  Claim C6.  For a name that does not resolve to a student, the by-name download is the
  response with status 200, media type text/plain, no header passed (so no
  Content-Disposition) and the body \<^verbatim>\<open>Student not found.\<close>
\<close>

theorem download_by_name_not_found:
  assumes "select_student_id student_name db = None"
  shows "fst (download_catchups_by_name student_name db) =
           \<lparr>status_code = 200, media_type = ''text/plain'', headers = [],
            body = ''Student not found.''\<rparr>"
  using assms by (simp add: download_catchups_by_name_def)

theorem download_by_name_not_found_witness:
  "fst (download_catchups_by_name ''Zed'' db_ana) =
     \<lparr>status_code = 200, media_type = ''text/plain'', headers = [],
      body = ''Student not found.''\<rparr>"
  using download_by_name_not_found [of "''Zed''" db_ana]
  by (simp add: db_ana_def select_student_id_def)

section \<open>The by-name download mirrors the by-name report\<close>

lemma csv_by_name_loop_eq:
  "csv_by_name_loop i data =
     map (\<lambda>r. [str_nat (catchup_no r), cj_date r, cj_lesson_missed r, charge r])
       (by_name_loop i data)"
  by (induction data arbitrary: i) simp_all

text \<open>
  Claim C7.  For a registered name, the by-name download is a text/csv response whose
  body is the title record holding the student's name, the header record, and then one
  record for every row of the by-name report, in the report's order, with the fields
  sequence number, date, lesson missed and tier of that row.
\<close>

theorem download_by_name_mirrors_report:
  assumes "select_student_id student_name db = Some sid"
  shows "body (fst (download_catchups_by_name student_name db)) =
           writerow [''Catch-up Tracker Report for '' @ student_name]
           @ writerow [''Catch-up Number'', ''Date'', ''Lesson Missed'', ''Status'']
           @ concat (map (\<lambda>r. writerow [str_nat (catchup_no r), cj_date r, cj_lesson_missed r, charge r])
               (fst (list_catchups_by_name student_name db)))
         \<and> media_type (fst (download_catchups_by_name student_name db)) = ''text/csv''
         \<and> status_code (fst (download_catchups_by_name student_name db)) = 200"
  using assms
  by (simp add: download_catchups_by_name_def list_catchups_by_name_def csv_by_name_loop_eq
      map_concat comp_def)

theorem download_by_name_mirrors_report_witness:
  "body (fst (download_catchups_by_name ''Ana'' (record_catchups ana_catchups db_ana))) =
     writerow [''Catch-up Tracker Report for Ana'']
     @ writerow [''Catch-up Number'', ''Date'', ''Lesson Missed'', ''Status'']
     @ writerow [''1'', ''2024-03-01'', ''L1'', ''Free'']
     @ writerow [''2'', ''2024-03-15'', ''L2'', ''Free'']
     @ writerow [''3'', ''2024-03-20'', ''L3'', ''Charge'']"
  using download_by_name_mirrors_report [of "''Ana''" "record_catchups ana_catchups db_ana" 1]
  by (simp add: db_ana_def ana_catchups_def record_catchups_def add_catchup_def
      insert_catchup_def select_student_id_def select_catchups_of_def
      list_catchups_by_name_def str_nat.simps digit_char_def)

section \<open>Reports leave the store alone\<close>

text \<open>
  Claim C10.  Each of the five read handlers returns the store it was given, whatever
  its result (also when the month reports fail); POST /catchups always adds a row.
\<close>

theorem reports_leave_store_unchanged:
  "snd (list_students db) = db
   \<and> snd (list_catchups_by_name student_name db) = db
   \<and> snd (list_all_catchups db) = db
   \<and> snd (download_catchups_by_name student_name db) = db
   \<and> snd (download_all_catchups db) = db
   \<and> length (catchups (snd (add_catchup catchup db))) = length (catchups db) + 1"
  by (simp add: list_students_def list_catchups_by_name_def list_all_catchups_def
      download_catchups_by_name_def download_all_catchups_def add_catchup_def
      insert_catchup_def split: option.split sum.split)

section \<open>Grouping by month\<close>

lemma first_seen_snoc:
  "first_seen (xs @ [x]) = (if x \<in> set xs then first_seen xs else first_seen xs @ [x])"
  by (simp add: first_seen_def)

lemma distinct_first_seen: "distinct (first_seen xs)"
  by (simp add: first_seen_def)

lemma set_first_seen: "set (first_seen xs) = set xs"
  by (simp add: first_seen_def)

lemma dd_append_map:
  "distinct ks \<Longrightarrow>
   dd_append k v (map (\<lambda>k'. (k', g k')) ks) =
     (if k \<in> set ks then map (\<lambda>k'. (k', if k' = k then g k' @ [v] else g k')) ks
      else map (\<lambda>k'. (k', g k')) ks @ [(k, [v])])"
  by (induction ks) auto

lemma dd_append_groups_by:
  "dd_append (key r) r (groups_by key rows) = groups_by key (rows @ [r])"
proof (cases "key r \<in> set (map key rows)")
  case True
  then show ?thesis
    by (simp add: groups_by_def dd_append_map distinct_first_seen set_first_seen
        first_seen_snoc)
next
  case False
  then have "\<And>r'. r' \<in> set rows \<Longrightarrow> key r' \<noteq> key r"
    by (metis image_eqI list.set_map)
  then have "filter (\<lambda>r'. key r' = key r) rows = []"
    by (simp add: filter_empty_conv)
  with False show ?thesis
    by (auto simp: groups_by_def dd_append_map distinct_first_seen set_first_seen
        first_seen_snoc)
qed

lemma foldl_dd_append:
  "foldl (\<lambda>m r. dd_append (key r) r m) [] rows = groups_by key rows"
proof (induction rows rule: rev_induct)
  case Nil
  show ?case by (simp add: groups_by_def first_seen_def)
next
  case (snoc r rows)
  then show ?case by (simp add: dd_append_groups_by)
qed

lemma monthly_loop_parsed:
  "list_all (\<lambda>r. strptime_Ymd (date_of r) \<noteq> None) rows \<Longrightarrow>
   monthly_loop date_of rows monthly =
     Inr (foldl (\<lambda>m r. dd_append (month_key (date_of r)) r m) monthly rows)"
  by (induction rows arbitrary: monthly) (auto simp: month_key_def)

lemma monthly_loop_refused:
  "\<not> list_all (\<lambda>r. strptime_Ymd (date_of r) \<noteq> None) rows \<Longrightarrow>
   monthly_loop date_of rows monthly = Inl ValueError"
  by (induction rows arbitrary: monthly) (auto split: option.split)

lemma monthly_loop_groups:
  "monthly_loop date_of rows [] =
     (if list_all (\<lambda>r. strptime_Ymd (date_of r) \<noteq> None) rows
      then Inr (groups_by (\<lambda>r. month_key (date_of r)) rows) else Inl ValueError)"
  by (simp add: monthly_loop_parsed monthly_loop_refused foldl_dd_append)

section \<open>The join and orphan rows\<close>



section \<open>Properties of the date functions\<close>

lemma length_10E:
  assumes "length s = 10"
  obtains a b c d e f g h i j where "s = [a, b, c, d, e, f, g, h, i, j]"
  using assms that by (auto simp: eval_nat_numeral length_Suc_conv)

lemma iso_calendar_dateD:
  assumes "iso_calendar_date s"
  obtains y1 y2 y3 y4 m1 m2 d1 d2 where
    "s = [y1, y2, y3, y4, CHR ''-'', m1, m2, CHR ''-'', d1, d2]"
    "is_digit y1" "is_digit y2" "is_digit y3" "is_digit y4"
    "is_digit m1" "is_digit m2" "is_digit d1" "is_digit d2"
    "1 \<le> py_int [y1, y2, y3, y4]"
    "1 \<le> py_int [m1, m2]" "py_int [m1, m2] \<le> 12"
    "1 \<le> py_int [d1, d2]"
    "py_int [d1, d2] \<le> days_in_month (py_int [y1, y2, y3, y4]) (py_int [m1, m2])"
proof -
  from assms have "length s = 10" by (simp add: iso_calendar_date_def)
  then obtain a b c d e f g h i j where s: "s = [a, b, c, d, e, f, g, h, i, j]"
    by (rule length_10E)
  from assms that [of a b c d f g i j] show thesis
    by (simp add: iso_calendar_date_def s)
qed

subsection \<open>Digits\<close>


lemma is_digit_cases:
  "is_digit c \<longleftrightarrow>
     c = CHR ''0'' \<or> c = CHR ''1'' \<or> c = CHR ''2'' \<or> c = CHR ''3'' \<or> c = CHR ''4'' \<or>
     c = CHR ''5'' \<or> c = CHR ''6'' \<or> c = CHR ''7'' \<or> c = CHR ''8'' \<or> c = CHR ''9''"
  by (simp add: is_digit_def)


lemma is_digit_props:
  assumes "is_digit c"
  shows "digit_val c < 10" and "digit_char (digit_val c) = c"
    and "c \<noteq> CHR '' ''" and "c \<noteq> CHR ''-''"
  using assms unfolding is_digit_cases
  by (elim disjE; simp add: digit_char_def digit_val_def)+

lemma py_int_2: "a \<noteq> CHR '' '' \<Longrightarrow> py_int [a, b] = 10 * digit_val a + digit_val b"
  by (simp add: py_int_def)

lemma py_int_4:
  "a \<noteq> CHR '' '' \<Longrightarrow>
   py_int [a, b, c, d] = 1000 * digit_val a + 100 * digit_val b + 10 * digit_val c + digit_val d"
  by (simp add: py_int_def)

lemma str_nat_lt10: "n < 10 \<Longrightarrow> str_nat n = [digit_char n]"
  by (simp add: str_nat.simps)

lemma str_nat_ge10: "10 \<le> n \<Longrightarrow> str_nat n = str_nat (n div 10) @ [digit_char (n mod 10)]"
  by (subst str_nat.simps) simp

lemma replicate_small:
  "replicate 2 c = [c, c]" "replicate 3 c = [c, c, c]"
  by (simp_all add: eval_nat_numeral)

lemma zfill_2:
  assumes "n < 100"
  shows "zfill 2 (str_nat n) = [digit_char (n div 10), digit_char (n mod 10)]"
proof (cases "n < 10")
  case True
  then show ?thesis by (simp add: str_nat_lt10 zfill_def digit_char_def replicate_small)
next
  case False
  with assms have "n div 10 < 10" by simp
  with False show ?thesis by (simp add: str_nat_ge10 str_nat_lt10 zfill_def replicate_small)
qed

lemma zfill_4:
  assumes "n < 10000"
  shows "zfill 4 (str_nat n) =
    [digit_char (n div 1000), digit_char (n div 100 mod 10), digit_char (n div 10 mod 10),
     digit_char (n mod 10)]"
proof -
  consider "n < 10" | "10 \<le> n" "n < 100" | "100 \<le> n" "n < 1000" | "1000 \<le> n"
    by linarith
  then show ?thesis
  proof cases
    case 1
    then show ?thesis by (simp add: str_nat_lt10 zfill_def digit_char_def replicate_small)
  next
    case 2
    then have "n div 10 < 10" "n div 100 = 0" "n div 1000 = 0" by simp_all
    with 2 show ?thesis
      by (simp add: str_nat_ge10 str_nat_lt10 zfill_def digit_char_def replicate_small)
  next
    case 3
    then have a: "10 \<le> n div 10" "n div 10 div 10 < 10" "n div 1000 = 0" "10 \<le> n"
      by simp_all
    have "n div 100 mod 10 = n div 100" using 3 by simp
    moreover have "n div 10 div 10 = n div 100" by (simp add: div_mult2_eq)
    ultimately show ?thesis using a
      by (simp add: str_nat_ge10 str_nat_lt10 zfill_def digit_char_def replicate_small)
  next
    case 4
    with assms have a: "10 \<le> n" "10 \<le> n div 10" "10 \<le> n div 10 div 10" 
      "n div 10 div 10 div 10 < 10"
      by simp_all
    have b: "n div 10 div 10 = n div 100" "n div 100 div 10 = n div 1000"
      by (simp_all add: div_mult2_eq)
    show ?thesis using a
      by (simp add: str_nat_ge10 str_nat_lt10 zfill_def b replicate_small)
  qed
qed

subsection \<open>What strptime returns\<close>





lemma strptime_of_Some:
  "strptime_of found = Some dt \<longleftrightarrow>
     (\<exists>rest. found = (dt, []) # rest \<and> 1 \<le> fst dt \<and> snd (snd dt) \<le> days_in_month (fst dt) (fst (snd dt)))"
  by (cases found) (auto simp: strptime_of_def split: prod.splits)


lemma month_cases:
  "1 \<le> m \<Longrightarrow> m \<le> 12 \<Longrightarrow>
   m = 1 \<or> m = 2 \<or> m = 3 \<or> m = 4 \<or> m = 5 \<or> m = 6 \<or> m = 7 \<or> m = 8 \<or> m = 9 \<or> m = 10
   \<or> m = 11 \<or> m = (12::nat)"
  by arith

lemma days_in_month_bounds:
  assumes "1 \<le> m" "m \<le> 12"
  shows "1 \<le> days_in_month y m \<and> days_in_month y m \<le> 31"
  using month_cases [OF assms] by (elim disjE; simp add: days_in_month_def)



lemma strftime_Ym_chars:
  assumes "y \<le> 9999" "m \<le> 12"
  shows "strftime_Ym (y, m, d) =
    [digit_char (y div 1000), digit_char (y div 100 mod 10), digit_char (y div 10 mod 10),
     digit_char (y mod 10), CHR ''-'', digit_char (m div 10), digit_char (m mod 10)]"
  using assms by (simp add: strftime_Ym_def zfill_4 zfill_2)


subsection \<open>Zero-padded ISO dates\<close>

lemma re_m_iso:
  assumes "is_digit m1" "is_digit m2" "1 \<le> py_int [m1, m2]" "py_int [m1, m2] \<le> 12"
  shows "re_m (m1 # m2 # r) =
           (py_int [m1, m2], r) # (if m1 = CHR ''1'' then [(1, m2 # r)] else [])"
proof -
  from assms(1) have sp: "m1 \<noteq> CHR '' ''" by (simp add: is_digit_props)
  have v: "digit_val m1 < 10" "digit_val m2 < 10"
    using assms(1,2) by (simp_all add: is_digit_props)
  from assms(3,4) have b: "1 \<le> 10 * digit_val m1 + digit_val m2"
    "10 * digit_val m1 + digit_val m2 \<le> 12"
    by (simp_all add: py_int_2 [OF sp])
  then have "digit_val m1 = 0 \<or> digit_val m1 = 1" by linarith
  then show ?thesis
  proof
    assume z: "digit_val m1 = 0"
    then have "digit_char 0 = m1" using assms(1) is_digit_props(2) by metis
    then have m1: "m1 = CHR ''0''" by (simp add: digit_char_def)
    from b z have "digit_val m2 \<noteq> 0" by simp
    then have "m2 \<noteq> CHR ''0''" by (auto simp: digit_val_def)
    with assms(2) have "m2 \<in> set ''123456789''" by (auto simp: is_digit_def)
    then show ?thesis by (simp add: re_m_def m1)
  next
    assume o: "digit_val m1 = 1"
    then have "digit_char 1 = m1" using assms(1) is_digit_props(2) by metis
    then have m1: "m1 = CHR ''1''" by (simp add: digit_char_def)
    from b o have "digit_val m2 \<le> 2" by simp
    then have "digit_val m2 = 0 \<or> digit_val m2 = 1 \<or> digit_val m2 = 2" by linarith
    then have "digit_char (digit_val m2) \<in> set ''012''"
      by (elim disjE; simp add: digit_char_def)
    then have "m2 \<in> set ''012''" using assms(2) by (simp add: is_digit_props)
    then show ?thesis by (simp add: re_m_def m1 py_int_def digit_val_def)
  qed
qed

lemma re_d_iso:
  assumes "is_digit d1" "is_digit d2" "1 \<le> py_int [d1, d2]" "py_int [d1, d2] \<le> 31"
  shows "\<exists>rest. re_d [d1, d2] = (py_int [d1, d2], []) # rest"
proof -
  from assms(1) have sp: "d1 \<noteq> CHR '' ''" by (simp add: is_digit_props)
  have v: "digit_val d1 < 10" "digit_val d2 < 10"
    using assms(1,2) by (simp_all add: is_digit_props)
  from assms(3,4) have b: "1 \<le> 10 * digit_val d1 + digit_val d2"
    "10 * digit_val d1 + digit_val d2 \<le> 31"
    by (simp_all add: py_int_2 [OF sp])
  then consider "digit_val d1 = 0" | "digit_val d1 = 1 \<or> digit_val d1 = 2" | "digit_val d1 = 3"
    by linarith
  then show ?thesis
  proof cases
    case 1
    then have "digit_char 0 = d1" using assms(1) is_digit_props(2) by metis
    then have d1: "d1 = CHR ''0''" by (simp add: digit_char_def)
    from b 1 have "digit_val d2 \<noteq> 0" by simp
    then have "d2 \<noteq> CHR ''0''" by (auto simp: digit_val_def)
    with assms(2) have "d2 \<in> set ''123456789''" by (auto simp: is_digit_def)
    then show ?thesis by (simp add: re_d_def d1 is_digit_def)
  next
    case 2
    then have "digit_char (digit_val d1) \<in> set ''12''"
      by (elim disjE; simp add: digit_char_def)
    then have d1: "d1 \<in> set ''12''" using assms(1) by (simp add: is_digit_props)
    then have "d1 \<noteq> CHR ''3''" by auto
    with d1 show ?thesis using assms(2) by (simp add: re_d_def)
  next
    case 3
    then have "digit_char 3 = d1" using assms(1) is_digit_props(2) by metis
    then have d1: "d1 = CHR ''3''" by (simp add: digit_char_def)
    from b 3 have "digit_val d2 \<le> 1" by simp
    then have "digit_val d2 = 0 \<or> digit_val d2 = 1" by linarith
    then have "digit_char (digit_val d2) \<in> set ''01''"
      by (elim disjE; simp add: digit_char_def)
    then have "d2 \<in> set ''01''" using assms(2) by (simp add: is_digit_props)
    then show ?thesis by (simp add: re_d_def d1)
  qed
qed

lemma div_mod_10:
  "c < 10 \<Longrightarrow> (10 * q + c) div 10 = (q::nat)" "c < 10 \<Longrightarrow> (10 * q + c) mod 10 = c"
  by simp_all

lemma digits4:
  assumes "a < 10" "b < 10" "c < 10" "d < 10"
    and n: "n = 1000 * a + 100 * b + 10 * c + (d::nat)"
  shows "n div 1000 = a" "n div 100 mod 10 = b" "n div 10 mod 10 = c" "n mod 10 = d"
proof -
  define q1 q2 where "q1 = 10 * q2 + c" and "q2 = 10 * a + b"
  have n': "n = 10 * q1 + d" by (simp add: n q1_def q2_def)
  have d1: "n div 10 = q1" unfolding n' using assms(4) by (rule div_mod_10)
  have "n div 100 = n div 10 div 10" by (simp add: div_mult2_eq)
  also have "\<dots> = q2" unfolding d1 q1_def using assms(3) by (rule div_mod_10)
  finally have d2: "n div 100 = q2" .
  have "n div 1000 = n div 100 div 10" by (simp add: div_mult2_eq)
  also have "\<dots> = a" unfolding d2 q2_def using assms(2) by (rule div_mod_10)
  finally show "n div 1000 = a" .
  show "n div 100 mod 10 = b" unfolding d2 q2_def using assms(2) by (rule div_mod_10)
  show "n div 10 mod 10 = c" unfolding d1 q1_def using assms(3) by (rule div_mod_10)
  show "n mod 10 = d" unfolding n' using assms(4) by (rule div_mod_10)
qed

lemma iso_calendar_date_strptime:
  assumes "iso_calendar_date s"
  shows "\<exists>y m d. strptime_Ymd s = Some (y, m, d) \<and> strftime_Ym (y, m, d) = take 7 s"
proof -
  from assms obtain y1 y2 y3 y4 m1 m2 d1 d2 where
    s: "s = [y1, y2, y3, y4, CHR ''-'', m1, m2, CHR ''-'', d1, d2]"
    and dy: "is_digit y1" "is_digit y2" "is_digit y3" "is_digit y4"
    and dm: "is_digit m1" "is_digit m2" and dd: "is_digit d1" "is_digit d2"
    and y: "1 \<le> py_int [y1, y2, y3, y4]"
    and m: "1 \<le> py_int [m1, m2]" "py_int [m1, m2] \<le> 12"
    and d: "1 \<le> py_int [d1, d2]"
      "py_int [d1, d2] \<le> days_in_month (py_int [y1, y2, y3, y4]) (py_int [m1, m2])"
    by (rule iso_calendar_dateD)
  let ?y = "py_int [y1, y2, y3, y4]" and ?m = "py_int [m1, m2]" and ?d = "py_int [d1, d2]"
  have d31: "?d \<le> 31"
    using d(2) days_in_month_bounds [OF m, of ?y] by simp
  obtain rest where rd: "re_d [d1, d2] = (?d, []) # rest"
    using re_d_iso [OF dd d(1) d31] by blast
  have m2: "m2 \<noteq> CHR ''-''" using dm by (simp add: is_digit_props)
  have "\<exists>rest'. re_match_Ymd s = ((?y, ?m, ?d), []) # rest'"
    by (simp add: s re_match_Ymd_def dy re_m_iso [OF dm m] rd m2)
  then have p: "strptime_Ymd s = Some (?y, ?m, ?d)"
    using y d by (auto simp: strptime_Ymd_def strptime_of_Some)
  have sp: "y1 \<noteq> CHR '' ''" "m1 \<noteq> CHR '' ''"
    using dy dm by (simp_all add: is_digit_props)
  have vy: "digit_val y1 < 10" "digit_val y2 < 10" "digit_val y3 < 10" "digit_val y4 < 10"
    and vm: "digit_val m1 < 10" "digit_val m2 < 10"
    using dy dm by (simp_all add: is_digit_props)
  have y9: "?y \<le> 9999" using vy by (simp add: py_int_4 sp)
  have yd: "?y div 1000 = digit_val y1" "?y div 100 mod 10 = digit_val y2"
    "?y div 10 mod 10 = digit_val y3" "?y mod 10 = digit_val y4"
    using digits4 [OF vy py_int_4 [OF sp(1)]] by simp_all
  have md: "?m div 10 = digit_val m1" "?m mod 10 = digit_val m2"
    using vm by (simp_all add: py_int_2 sp)
  have "strftime_Ym (?y, ?m, ?d) = take 7 s"
    using dy dm
    by (simp add: strftime_Ym_chars [OF y9 m(2)] yd md is_digit_props s)
  with p show ?thesis by blast
qed


subsection \<open>Text order and month keys\<close>



section \<open>Orphan rows\<close>







section \<open>When GET /catchups/all fails\<close>

lemma not_list_all_Some:
  "(\<not> list_all (\<lambda>r. f r \<noteq> None) rows) \<longleftrightarrow> (\<exists>r \<in> set rows. f r = None)"
  by (induction rows) simp_all

lemma list_all_catchups_result:
  "fst (list_all_catchups db) =
     (if list_all (\<lambda>r. strptime_Ymd (fst (snd r)) \<noteq> None) (select_all_catchups db)
      then Inr (groups_by (\<lambda>r. month_key (fst (snd r))) (select_all_catchups db))
      else Inl ValueError)"
proof -
  have "(\<lambda>(n, d, sid, l). d) = (\<lambda>r :: string \<times> string \<times> int \<times> string. fst (snd r))"
    by (simp add: fun_eq_iff)
  then show ?thesis
    by (simp add: list_all_catchups_def monthly_loop_groups)
qed

text \<open>
  Claim C8, amended.  GET /catchups/all fails with the ValueError exactly when
  \<^verbatim>\<open>strptime\<close> refuses the date of some joined row.  Every zero-padded ISO calendar
  date is accepted, so the request succeeds when all joined dates are such dates; the
  converse does not hold, since \<^verbatim>\<open>strptime\<close> accepts more than the ISO form.
\<close>

theorem list_all_catchups_fails_iff:
  "(fst (list_all_catchups db) = Inl ValueError \<longleftrightarrow>
      (\<exists>row \<in> set (select_all_catchups db). strptime_Ymd (fst (snd row)) = None))
   \<and> ((\<forall>row \<in> set (select_all_catchups db). iso_calendar_date (fst (snd row))) \<longrightarrow>
        (\<exists>monthly. fst (list_all_catchups db) = Inr monthly))
   \<and> (iso_calendar_date d \<longrightarrow> strptime_Ymd d \<noteq> None)"
proof -
  have iso: "strptime_Ymd s \<noteq> None" if "iso_calendar_date s" for s
    using iso_calendar_date_strptime [OF that] by auto
  let ?ok = "list_all (\<lambda>r. strptime_Ymd (fst (snd r)) \<noteq> None) (select_all_catchups db)"
  have n: "(\<not> ?ok) \<longleftrightarrow>
      (\<exists>row \<in> set (select_all_catchups db). strptime_Ymd (fst (snd row)) = None)"
    by (rule not_list_all_Some)
  have a: "fst (list_all_catchups db) = Inl ValueError \<longleftrightarrow>
      (\<exists>row \<in> set (select_all_catchups db). strptime_Ymd (fst (snd row)) = None)"
    unfolding list_all_catchups_result n [symmetric]
    by (cases ?ok) (simp_all only: if_True if_False sum.distinct simp_thms)
  have b: "\<exists>monthly. fst (list_all_catchups db) = Inr monthly"
    if "\<forall>row \<in> set (select_all_catchups db). iso_calendar_date (fst (snd row))"
  proof -
    from that iso have "list_all (\<lambda>r. strptime_Ymd (fst (snd r)) \<noteq> None) (select_all_catchups db)"
      unfolding list_all_iff by blast
    then show ?thesis by (simp add: list_all_catchups_result)
  qed
  from a b iso show ?thesis by blast
qed

theorem list_all_catchups_fails_iff_witness:
  "fst (list_all_catchups db_bad_date) = Inl ValueError
   \<and> (\<exists>monthly. fst (list_all_catchups (record_catchups ana_catchups db_ana)) = Inr monthly)
   \<and> strptime_Ymd ''2024-03-20'' \<noteq> None"
proof -
  have sel: "select_all_catchups db_bad_date = [(''Ana'', ''2024-02-30'', 1, ''L1'')]"
    by (simp add: db_bad_date_def select_all_catchups_def join_order_by_date_def)
  have bad: "strptime_Ymd ''2024-02-30'' = None"
    by (simp add: strptime_Ymd_def strptime_of_def re_match_Ymd_def re_m_def re_d_def
        is_digit_def py_int_def digit_val_def days_in_month_def is_leap_def)
  have sel2: "select_all_catchups (record_catchups ana_catchups db_ana) =
      [(''Ana'', ''2024-03-01'', 1, ''L1''), (''Ana'', ''2024-03-15'', 1, ''L2''),
       (''Ana'', ''2024-03-20'', 1, ''L3'')]"
    by (simp add: db_ana_def ana_catchups_def record_catchups_def add_catchup_def
        insert_catchup_def select_all_catchups_def join_order_by_date_def)
  have iso: "iso_calendar_date ''2024-03-01''" "iso_calendar_date ''2024-03-15''"
    "iso_calendar_date ''2024-03-20''"
    by (simp_all add: iso_calendar_date_def is_digit_def py_int_def digit_val_def
        days_in_month_def is_leap_def)
  show ?thesis
    using list_all_catchups_fails_iff [of db_bad_date "''2024-03-20''"]
      list_all_catchups_fails_iff [of "record_catchups ana_catchups db_ana" "''2024-03-20''"]
    by (simp add: sel bad sel2 iso)
qed

text \<open>
  A date that is no ISO calendar date need not make the request fail: the only joined
  row of this store has the date \<^verbatim>\<open>2024-3-5\<close>, and the request succeeds with the
  month key of March 2024.
\<close>

theorem single_digit_date_accepted:
  "select_all_catchups db_single_digit = [(''Ana'', ''2024-3-5'', 1, ''L1'')]
   \<and> \<not> iso_calendar_date ''2024-3-5''
   \<and> fst (list_all_catchups db_single_digit) =
       Inr [(''2024-03'', [(''Ana'', ''2024-3-5'', 1, ''L1'')])]"
proof -
  have sel: "select_all_catchups db_single_digit = [(''Ana'', ''2024-3-5'', 1, ''L1'')]"
    by (simp add: db_single_digit_def select_all_catchups_def join_order_by_date_def)
  have p: "strptime_Ymd ''2024-3-5'' = Some (2024, 3, 5)"
    by (simp add: strptime_Ymd_def strptime_of_def re_match_Ymd_def re_m_def re_d_def
        is_digit_def py_int_def digit_val_def days_in_month_def is_leap_def)
  have k: "strftime_Ym (2024, 3, 5) = ''2024-03''"
    by (simp add: strftime_Ym_chars digit_char_def)
  show ?thesis
    by (simp add: sel list_all_catchups_def p k iso_calendar_date_def)
qed

section \<open>The month report\<close>













section \<open>The full download\<close>












end
